theory Spec2Isabelle
  imports
    Main
    "HOL-Library.Multiset"
    "HOL-Library.Char_ord"
    "HOL-Library.List_Lexorder"
    "HOL-Library.Log_Nat"
begin

text \<open>
  A model of \<^verbatim>\<open>dataset_tools.py\<close>, the helper of the InReDD corpus of panoramic
  radiographs: the class \<^verbatim>\<open>InReDDDataset\<close>, which indexes the images of a directory and
  pairs each with its JSON annotation, the class \<^verbatim>\<open>DatasetStats\<close>, which folds annotation
  records into counters and box counts, and the function \<^verbatim>\<open>describe\<close>, which runs one over
  the other. A method is a function from the state of its object to a result and the
  state after the call; an exception is a value of the type \<open>error\<close>.
\<close>

section \<open>Values read from annotation files\<close>

text \<open>
  \<^verbatim>\<open>json.load\<close> turns an annotation file into a Python value: \<^verbatim>\<open>None\<close>, a bool, an
  int, a str, a list or a dict whose keys are strings. A dict is written as the list of
  its items in insertion order (the keys of a parsed dict are distinct; \<open>map_of\<close> is the
  lookup). A string is the list of its characters, over the code points below 256.
  JSON numbers with a fraction or an
  exponent become Python floats; their text form and their hashing are floating-point
  behaviour and they are not part of this model.
\<close>

datatype json =
    JNull
  | JBool bool
  | JInt int
  | JStr string
  | JArr "json list"
  | JObj "(string \<times> json) list"

datatype error =
    AttributeError
  | TypeError
  | StatisticsError
  | IndexError
  | FileNotFoundError
  | ImportError
  | ValueError
  | OtherError string

text \<open>Truth value of a Python object, as \<^verbatim>\<open>if v\<close> tests it.\<close>

fun py_truthy :: "json \<Rightarrow> bool" where
  "py_truthy JNull = False"
| "py_truthy (JBool b) = b"
| "py_truthy (JInt i) = (i \<noteq> 0)"
| "py_truthy (JStr s) = (s \<noteq> [])"
| "py_truthy (JArr xs) = (xs \<noteq> [])"
| "py_truthy (JObj kvs) = (kvs \<noteq> [])"

text \<open>Decimal text of an int, as \<^verbatim>\<open>str\<close> prints it.\<close>

definition digit_char :: "nat \<Rightarrow> char" where
  "digit_char d = char_of (48 + d)"

fun nat_str :: "nat \<Rightarrow> string" where
  "nat_str n = (if n < 10 then [digit_char n] else nat_str (n div 10) @ [digit_char (n mod 10)])"

declare nat_str.simps [simp del]

definition int_str :: "int \<Rightarrow> string" where
  "int_str i = (if i < 0 then CHR ''-'' # nat_str (nat (- i)) else nat_str (nat i))"

text \<open>
  \<^verbatim>\<open>repr\<close> of a str: single quotes, unless the string holds a single quote and no double
  quote; the quote in use and the backslash are escaped, tab, newline and carriage
  return have their letters, and every other character that is not printable is written
  \<^verbatim>\<open>\xhh\<close>. Among the code points below 256 the printable ones are 32 to 126 and 161 to
  255 without 173.
\<close>

definition hex_digit :: "nat \<Rightarrow> char" where
  "hex_digit d = (if d < 10 then char_of (48 + d) else char_of (87 + d))"

definition hex_escape :: "char \<Rightarrow> string" where
  "hex_escape c =
     [CHR 0x5C, CHR ''x'', hex_digit (of_char c div 16), hex_digit (of_char c mod 16)]"

definition printable :: "char \<Rightarrow> bool" where
  "printable c =
     (let n = of_char c :: nat in (32 \<le> n \<and> n < 127) \<or> (160 < n \<and> n \<noteq> 173))"

definition repr_char :: "char \<Rightarrow> char \<Rightarrow> string" where
  "repr_char quote c =
     (if c = quote \<or> c = CHR 0x5C then [CHR 0x5C, c]
      else if c = CHR 0x09 then [CHR 0x5C, CHR ''t'']
      else if c = CHR 0x0A then [CHR 0x5C, CHR ''n'']
      else if c = CHR 0x0D then [CHR 0x5C, CHR ''r'']
      else if printable c then [c]
      else hex_escape c)"

definition str_repr :: "string \<Rightarrow> string" where
  "str_repr s =
     (let quote = (if CHR 0x27 \<in> set s \<and> CHR 0x22 \<notin> set s then CHR 0x22 else CHR 0x27)
      in quote # concat (map (repr_char quote) s) @ [quote])"

text \<open>\<^verbatim>\<open>sep.join(parts)\<close>.\<close>

fun join :: "string \<Rightarrow> string list \<Rightarrow> string" where
  "join sep [] = []"
| "join sep [x] = x"
| "join sep (x # y # zs) = x @ sep @ join sep (y # zs)"

text \<open>\<^verbatim>\<open>repr(v)\<close> and \<^verbatim>\<open>str(v)\<close>: they differ on a str only, which \<^verbatim>\<open>str\<close> returns as it is.\<close>

fun py_repr :: "json \<Rightarrow> string" where
  "py_repr JNull = ''None''"
| "py_repr (JBool b) = (if b then ''True'' else ''False'')"
| "py_repr (JInt i) = int_str i"
| "py_repr (JStr s) = str_repr s"
| "py_repr (JArr xs) = ''['' @ join '', '' (map py_repr xs) @ '']''"
| "py_repr (JObj kvs) =
     ''{'' @ join '', '' (map (\<lambda>kv. str_repr (fst kv) @ '': '' @ py_repr (snd kv)) kvs) @ ''}''"

fun py_str :: "json \<Rightarrow> string" where
  "py_str (JStr s) = s"
| "py_str v = py_repr v"

section \<open>Counters\<close>

text \<open>
  A key of a \<^verbatim>\<open>Counter\<close>: a string or a number. \<^verbatim>\<open>True\<close> and \<^verbatim>\<open>1\<close> are equal and hash
  alike, so a bool is the key of its number.
\<close>

datatype pykey = KStr string | KInt int

type_synonym counter = "pykey \<rightharpoonup> int"

text \<open>\<^verbatim>\<open>Counter.update(iterable)\<close>: \<^verbatim>\<open>self[elem] = self.get(elem, 0) + 1\<close> for each element.\<close>

definition counter_incr :: "counter \<Rightarrow> pykey \<Rightarrow> counter" where
  "counter_incr c k = c(k \<mapsto> (case c k of None \<Rightarrow> 0 | Some n \<Rightarrow> n) + 1)"

fun counter_update :: "counter \<Rightarrow> pykey list \<Rightarrow> counter" where
  "counter_update c [] = c"
| "counter_update c (k # ks) = counter_update (counter_incr c k) ks"

text \<open>The count a \<^verbatim>\<open>Counter\<close> reports for a key (\<^verbatim>\<open>c[k]\<close>, zero when absent).\<close>

definition counter_get :: "counter \<Rightarrow> pykey \<Rightarrow> int" where
  "counter_get c k = (case c k of None \<Rightarrow> 0 | Some n \<Rightarrow> n)"

section \<open>DatasetStats\<close>

record DatasetStats =
  image_status :: counter
  conditions :: counter
  tooth_ids :: counter
  n_boxes_total :: int
  boxes_per_image :: "int list"

definition DatasetStats_init :: DatasetStats where
  "DatasetStats_init =
     \<lparr>image_status = Map.empty, conditions = Map.empty, tooth_ids = Map.empty,
      n_boxes_total = 0, boxes_per_image = []\<rparr>"

text \<open>
  \<^verbatim>\<open>objs = ann if isinstance(ann, Sequence) else [ann]\<close>: a list is a \<^verbatim>\<open>Sequence\<close>, and so
  is a str (its elements are its one-character strings); a dict or a scalar is wrapped.
\<close>

fun objs_of :: "json \<Rightarrow> json list" where
  "objs_of (JArr xs) = xs"
| "objs_of (JStr s) = map (\<lambda>c. JStr [c]) s"
| "objs_of v = [v]"

text \<open>\<^verbatim>\<open>obj.get(key)\<close>: only a dict has \<^verbatim>\<open>get\<close>; anything else raises \<^verbatim>\<open>AttributeError\<close>.\<close>

fun obj_get :: "json \<Rightarrow> string \<Rightarrow> error + json option" where
  "obj_get (JObj kvs) k = Inr (map_of kvs k)"
| "obj_get v k = Inl AttributeError"

text \<open>
  \<^verbatim>\<open>[c for c, v in obj.get("conditions", {}).items() if v]\<close>: the default is the empty
  dict; a value that is present and is not a dict has no \<^verbatim>\<open>items\<close>.
\<close>

fun true_conditions :: "json option \<Rightarrow> error + pykey list" where
  "true_conditions None = Inr []"
| "true_conditions (Some (JObj kvs)) = Inr (map (KStr \<circ> fst) (filter (py_truthy \<circ> snd) kvs))"
| "true_conditions (Some v) = Inl AttributeError"

text \<open>
  The key under which \<^verbatim>\<open>self.image_status.update([status])\<close> counts a truthy status:
  a non-empty list or dict is unhashable.
\<close>

fun status_key :: "json \<Rightarrow> error + pykey" where
  "status_key (JStr s) = Inr (KStr s)"
| "status_key (JInt i) = Inr (KInt i)"
| "status_key (JBool b) = Inr (KInt (if b then 1 else 0))"
| "status_key v = Inl TypeError"

text \<open>
  The body of the loop over the objects of one record. The object mutates the counters
  in place, so a step that raises leaves behind what it has already counted: the result
  is the exception, if any, and the state at that moment.
\<close>

definition update_obj :: "DatasetStats \<Rightarrow> json \<Rightarrow> error option \<times> DatasetStats" where
  "update_obj s obj =
     (case obj_get obj ''tooth_id'' of
        Inl e \<Rightarrow> (Some e, s)
      | Inr tid \<Rightarrow>
          let s1 = (case tid of
                      None \<Rightarrow> s
                    | Some JNull \<Rightarrow> s
                    | Some v \<Rightarrow> s\<lparr>tooth_ids := counter_update (tooth_ids s) [KStr (py_str v)]\<rparr>)
          in (case obj_get obj ''conditions'' of
                Inl e \<Rightarrow> (Some e, s1)
              | Inr cs \<Rightarrow>
                  (case true_conditions cs of
                     Inl e \<Rightarrow> (Some e, s1)
                   | Inr ks \<Rightarrow>
                       let s2 = s1\<lparr>conditions := counter_update (conditions s1) ks\<rparr>
                       in (case obj_get obj ''image_status'' of
                             Inl e \<Rightarrow> (Some e, s2)
                           | Inr None \<Rightarrow> (None, s2)
                           | Inr (Some status) \<Rightarrow>
                               if py_truthy status then
                                 (case status_key status of
                                    Inl e \<Rightarrow> (Some e, s2)
                                  | Inr k \<Rightarrow> (None, s2\<lparr>image_status := counter_update (image_status s2) [k]\<rparr>))
                               else (None, s2)))))"

fun update_objs :: "DatasetStats \<Rightarrow> json list \<Rightarrow> error option \<times> DatasetStats" where
  "update_objs s [] = (None, s)"
| "update_objs s (obj # objs) =
     (case update_obj s obj of
        (Some e, s') \<Rightarrow> (Some e, s')
      | (None, s') \<Rightarrow> update_objs s' objs)"

definition update :: "DatasetStats \<Rightarrow> json \<Rightarrow> error option \<times> DatasetStats" where
  "update s ann =
     (let objs = objs_of ann;
          s1 = s\<lparr>boxes_per_image := boxes_per_image s @ [int (length objs)]\<rparr>;
          s2 = s1\<lparr>n_boxes_total := n_boxes_total s1 + int (length objs)\<rparr>
      in update_objs s2 objs)"

section \<open>Numbers of the summary\<close>

text \<open>
  A number of the summary is a Python int or a Python float. A float is a double
  \<open>m * 2 ^ e\<close>, written \<open>PyFloat m e\<close> with \<open>2 ^ 52 \<le> \<bar>m\<bar> < 2 ^ 53\<close>, or \<open>PyFloat 0 0\<close> for
  zero, so that equal doubles are equal terms. The histories here are lengths of lists,
  far inside the range of a double: overflow and subnormals are not modelled.
\<close>

datatype pynum = PyInt int | PyFloat int int

text \<open>The integer nearest to \<open>n / d\<close> for \<open>0 \<le> n\<close> and \<open>0 < d\<close>, ties to even.\<close>

definition round_half_even :: "int \<Rightarrow> int \<Rightarrow> int" where
  "round_half_even n d =
     (let q = n div d; r = n mod d
      in if 2 * r < d then q else if d < 2 * r then q + 1 else if even q then q else q + 1)"

text \<open>
  \<^verbatim>\<open>n / d\<close> on ints with \<open>0 < d\<close> (also \<^verbatim>\<open>float(Fraction(n, d))\<close>): the double nearest to
  the quotient, ties to even.
\<close>

definition true_div :: "int \<Rightarrow> int \<Rightarrow> pynum" where
  "true_div n d =
     (if n = 0 then PyFloat 0 0
      else
        let a = \<bar>n\<bar>;
            e0 = bitlen a - bitlen d - 53;
            e = (if 2 ^ 53 * (d * 2 ^ nat e0) \<le> a * 2 ^ nat (- e0) then e0 + 1 else e0);
            m = round_half_even (a * 2 ^ nat (- e)) (d * 2 ^ nat e)
        in if m = 2 ^ 53 then PyFloat (sgn n * 2 ^ 52) (e + 1) else PyFloat (sgn n * m) e)"

text \<open>
  \<^verbatim>\<open>round(x, 2)\<close>: an int is returned as it is; a float is converted to the decimal with
  two places nearest to its exact value (ties to even) and that decimal is read back as
  a double.
\<close>

fun py_round2 :: "pynum \<Rightarrow> pynum" where
  "py_round2 (PyInt i) = PyInt i"
| "py_round2 (PyFloat m e) =
     true_div (sgn m * round_half_even (100 * \<bar>m\<bar> * 2 ^ nat e) (2 ^ nat (- e))) 100"

text \<open>
  \<^verbatim>\<open>statistics.mean\<close>: the exact fraction \<open>sum / n\<close>, returned as an int when it is whole
  and as a float otherwise; no data raises \<^verbatim>\<open>StatisticsError\<close>.
\<close>

definition stats_mean :: "int list \<Rightarrow> error + pynum" where
  "stats_mean xs =
     (if xs = [] then Inl StatisticsError
      else
        let t = sum_list xs; n = int (length xs)
        in if t mod n = 0 then Inr (PyInt (t div n)) else Inr (true_div t n))"

text \<open>
  \<^verbatim>\<open>statistics.median\<close>: sorts a copy; the middle element of an odd number of data, the
  mean \<^verbatim>\<open>(data[i - 1] + data[i]) / 2\<close> of the two middle ones otherwise.
\<close>

definition stats_median :: "int list \<Rightarrow> error + pynum" where
  "stats_median xs =
     (let data = sort xs; n = length data
      in if n = 0 then Inl StatisticsError
         else if n mod 2 = 1 then Inr (PyInt (data ! (n div 2)))
         else let i = n div 2 in Inr (true_div (data ! (i - 1) + data ! i) 2))"

text \<open>\<^verbatim>\<open>min\<close> and \<^verbatim>\<open>max\<close> of a list: \<^verbatim>\<open>ValueError\<close> on the empty list.\<close>

fun py_min :: "int list \<Rightarrow> error + int" where
  "py_min [] = Inl ValueError"
| "py_min (x # xs) = Inr (fold min xs x)"

fun py_max :: "int list \<Rightarrow> error + int" where
  "py_max [] = Inl ValueError"
| "py_max (x # xs) = Inr (fold max xs x)"

section \<open>The summary\<close>

text \<open>
  A value stored in the dict that \<^verbatim>\<open>summary\<close> builds and \<^verbatim>\<open>describe\<close> extends: a number,
  a nested dict, or a reference to one of the three \<^verbatim>\<open>Counter\<close> objects of the
  accumulator. Python stores the object itself, not a copy: the reference names the field
  that holds it.
\<close>

datatype counter_ref = RefImageStatus | RefConditions | RefToothIds

datatype pyval = VNum pynum | VDict "(string \<times> pyval) list" | VCounter counter_ref

text \<open>
  \<^verbatim>\<open>summary\<close>: the dict display is evaluated from left to right, so the first call that
  fails on an empty history is \<^verbatim>\<open>stats.mean\<close>. The method returns its result and the
  state of the object after the call.
\<close>

definition summary :: "DatasetStats \<Rightarrow> (error + (string \<times> pyval) list) \<times> DatasetStats" where
  "summary s =
     (case stats_mean (boxes_per_image s) of
        Inl e \<Rightarrow> (Inl e, s)
      | Inr mu \<Rightarrow>
     (case stats_median (boxes_per_image s) of
        Inl e \<Rightarrow> (Inl e, s)
      | Inr med \<Rightarrow>
     (case py_min (boxes_per_image s) of
        Inl e \<Rightarrow> (Inl e, s)
      | Inr lo \<Rightarrow>
     (case py_max (boxes_per_image s) of
        Inl e \<Rightarrow> (Inl e, s)
      | Inr hi \<Rightarrow>
          (Inr [(''images'', VNum (PyInt (int (length (boxes_per_image s))))),
                (''boxes'', VNum (PyInt (n_boxes_total s))),
                (''boxes_per_image'',
                   VDict [(''mean'', VNum (py_round2 mu)),
                          (''median'', VNum med),
                          (''min'', VNum (PyInt lo)),
                          (''max'', VNum (PyInt hi))])], s)))))"

text \<open>The \<^verbatim>\<open>Counter\<close> object behind a reference, and an in-place change made through one.\<close>

fun deref :: "DatasetStats \<Rightarrow> counter_ref \<Rightarrow> counter" where
  "deref s RefImageStatus = image_status s"
| "deref s RefConditions = conditions s"
| "deref s RefToothIds = tooth_ids s"

fun mutate_ref :: "counter_ref \<Rightarrow> (counter \<Rightarrow> counter) \<Rightarrow> DatasetStats \<Rightarrow> DatasetStats" where
  "mutate_ref RefImageStatus f s = s\<lparr>image_status := f (image_status s)\<rparr>"
| "mutate_ref RefConditions f s = s\<lparr>conditions := f (conditions s)\<rparr>"
| "mutate_ref RefToothIds f s = s\<lparr>tooth_ids := f (tooth_ids s)\<rparr>"

text \<open>
  A sequence of \<^verbatim>\<open>update\<close> calls on one accumulator. \<open>update_calls\<close> is the state after
  every call has been made, whether or not it raised (a caller that catches);
  \<open>update_all\<close> stops at the first exception, as the loop of \<^verbatim>\<open>describe\<close> does.
\<close>

fun update_calls :: "DatasetStats \<Rightarrow> json list \<Rightarrow> DatasetStats" where
  "update_calls s [] = s"
| "update_calls s (ann # anns) = update_calls (snd (update s ann)) anns"

fun update_all :: "DatasetStats \<Rightarrow> json list \<Rightarrow> error option \<times> DatasetStats" where
  "update_all s [] = (None, s)"
| "update_all s (ann # anns) =
     (case update s ann of
        (Some e, s') \<Rightarrow> (Some e, s')
      | (None, s') \<Rightarrow> update_all s' anns)"

section \<open>InReDDDataset\<close>

text \<open>
  The file system is what the program reads, so it is a parameter. A path below
  \<^verbatim>\<open>images/\<close> is the list of its components. \<open>img_entries\<close> lists every path below
  \<^verbatim>\<open>images/\<close> in the order a scan meets them; an entry is a file of any kind, as for
  \<^verbatim>\<open>Path.glob\<close>, which does not look at the kind; the list is empty when \<^verbatim>\<open>images/\<close> is no
  directory. \<open>ann_files\<close> answers for a file name under \<^verbatim>\<open>annotations/\<close>: \<open>None\<close> when
  the path does not exist, otherwise what opening it and \<^verbatim>\<open>json.load\<close> give. \<open>pil\<close> is
  \<^verbatim>\<open>Image.open(p).convert("L")\<close>, or \<open>None\<close> when PIL cannot be imported. \<open>rglob_first\<close> is
  \<^verbatim>\<open>next(img_dir.rglob(pattern), None)\<close> and \<open>path_exists\<close> is \<^verbatim>\<open>Path.exists\<close>, both at
  the time of the access, which may be later than the scan of the constructor.
\<close>

type_synonym path = "string list"

record 'img filesystem =
  img_entries :: "path list"
  ann_files :: "string \<Rightarrow> (error + json) option"
  pil :: "(path \<Rightarrow> error + 'img) option"
  rglob_first :: "string \<Rightarrow> path option"
  path_exists :: "path \<Rightarrow> bool"

definition IMG_EXTS :: "string list" where
  "IMG_EXTS = [''.png'', ''.jpg'', ''.jpeg'']"

text \<open>A name matches the pattern \<^verbatim>\<open>*<ext>\<close> when it ends with the extension (POSIX: case matters).\<close>

definition matches_ext :: "string \<Rightarrow> string \<Rightarrow> bool" where
  "matches_ext ext name =
     (length ext \<le> length name \<and> drop (length name - length ext) name = ext)"

text \<open>\<^verbatim>\<open>str.rfind\<close> of one character: the last index where it occurs.\<close>

fun rfind :: "char \<Rightarrow> string \<Rightarrow> nat option" where
  "rfind c [] = None"
| "rfind c (x # xs) =
     (case rfind c xs of
        Some i \<Rightarrow> Some (Suc i)
      | None \<Rightarrow> if x = c then Some 0 else None)"

text \<open>
  \<^verbatim>\<open>PurePath.stem\<close>: with \<^verbatim>\<open>i = name.rfind('.')\<close>, the name up to \<^verbatim>\<open>i\<close> when
  \<^verbatim>\<open>0 < i < len(name) - 1\<close>, the whole name otherwise.
\<close>

definition stem :: "string \<Rightarrow> string" where
  "stem name =
     (case rfind CHR ''.'' name of
        None \<Rightarrow> name
      | Some i \<Rightarrow> if 0 < i \<and> int i < int (length name) - 1 then take i name else name)"

text \<open>
  \<^verbatim>\<open>globber(ext)\<close>: \<^verbatim>\<open>img_dir.rglob("*<ext>")\<close> looks at every level, \<^verbatim>\<open>img_dir.glob("*<ext>")\<close>
  at the entries of \<^verbatim>\<open>images/\<close> itself.
\<close>

definition globber :: "'img filesystem \<Rightarrow> bool \<Rightarrow> string \<Rightarrow> path list" where
  "globber fs recursive ext =
     filter (\<lambda>p. p \<noteq> [] \<and> (recursive \<or> length p = 1) \<and> matches_ext ext (last p)) (img_entries fs)"

text \<open>\<^verbatim>\<open>p.stem for ext in self.IMG_EXTS for p in globber(ext)\<close>, in the order of the comprehension.\<close>

definition scan_stems :: "'img filesystem \<Rightarrow> bool \<Rightarrow> string list" where
  "scan_stems fs recursive =
     concat (map (\<lambda>ext. map (\<lambda>p. stem (last p)) (globber fs recursive ext)) IMG_EXTS)"

record 'img InReDDDataset =
  ids :: "string list"
  load_images :: bool
  transforms :: "('img option \<times> json \<Rightarrow> error + 'img option \<times> json) option"

text \<open>
  The constructor: \<^verbatim>\<open>sorted({...})\<close> is the sorted list of the distinct stems. The root
  is taken as resolved already (\<^verbatim>\<open>expanduser\<close> and \<^verbatim>\<open>resolve\<close> are not modelled).
\<close>

definition InReDDDataset_init ::
  "'img filesystem \<Rightarrow> bool \<Rightarrow> ('img option \<times> json \<Rightarrow> error + 'img option \<times> json) option \<Rightarrow> bool
     \<Rightarrow> error + 'img InReDDDataset" where
  "InReDDDataset_init fs load_imgs tr recursive =
     (let the_ids = sort (remdups (scan_stems fs recursive))
      in if the_ids = [] then Inl FileNotFoundError
         else Inr \<lparr>ids = the_ids, load_images = load_imgs, transforms = tr\<rparr>)"

definition len :: "'img InReDDDataset \<Rightarrow> nat" where
  "len ds = length (ids ds)"

text \<open>What an access does to the outside world, in order.\<close>

datatype event =
    AnnExists string
  | AnnRead string
  | PILImport
  | ImageSearch string
  | ImageExists path
  | ImageOpen path
  | TransformCall

text \<open>
  The loop over \<^verbatim>\<open>IMG_EXTS\<close> of \<^verbatim>\<open>__getitem__\<close>: the first extension whose search gives a
  path that exists is opened; the \<^verbatim>\<open>else\<close> of the loop raises.
\<close>

fun find_image ::
  "'img filesystem \<Rightarrow> (path \<Rightarrow> error + 'img) \<Rightarrow> string \<Rightarrow> string list \<Rightarrow> event list \<times> (error + 'img)" where
  "find_image fs opn img_id [] = ([], Inl FileNotFoundError)"
| "find_image fs opn img_id (ext # exts) =
     (case rglob_first fs (img_id @ ext) of
        None \<Rightarrow>
          (case find_image fs opn img_id exts of
             (evs, r) \<Rightarrow> (ImageSearch (img_id @ ext) # evs, r))
      | Some p \<Rightarrow>
          if path_exists fs p
          then ([ImageSearch (img_id @ ext), ImageExists p, ImageOpen p], opn p)
          else (case find_image fs opn img_id exts of
                  (evs, r) \<Rightarrow> (ImageSearch (img_id @ ext) # ImageExists p # evs, r)))"

text \<open>The part of \<^verbatim>\<open>__getitem__\<close> under \<^verbatim>\<open>if self.load_images\<close>; \<^verbatim>\<open>image\<close> stays \<^verbatim>\<open>None\<close> otherwise.\<close>

definition get_image ::
  "'img filesystem \<Rightarrow> 'img InReDDDataset \<Rightarrow> string \<Rightarrow> event list \<times> (error + 'img option)" where
  "get_image fs ds img_id =
     (if load_images ds then
        (case pil fs of
           None \<Rightarrow> ([PILImport], Inl ImportError)
         | Some opn \<Rightarrow>
             (case find_image fs opn img_id IMG_EXTS of
                (evs, Inl e) \<Rightarrow> (PILImport # evs, Inl e)
              | (evs, Inr img) \<Rightarrow> (PILImport # evs, Inr (Some img))))
      else ([], Inr None))"

text \<open>
  \<^verbatim>\<open>__getitem__\<close>, with Python's indexing of \<^verbatim>\<open>self.ids\<close> (a negative index counts from the
  end, an index out of range raises \<^verbatim>\<open>IndexError\<close>). The result is the trace of the
  access and the pair \<^verbatim>\<open>(image, target)\<close> or the exception.
\<close>

definition getitem ::
  "'img filesystem \<Rightarrow> 'img InReDDDataset \<Rightarrow> int \<Rightarrow> event list \<times> (error + 'img option \<times> json)" where
  "getitem fs ds idx =
     (let n = int (length (ids ds)); j = (if idx < 0 then n + idx else idx)
      in if j < 0 \<or> n \<le> j then ([], Inl IndexError)
         else
           let img_id = ids ds ! nat j; ann = img_id @ ''.json''
           in (case ann_files fs ann of
                 None \<Rightarrow> ([AnnExists ann], Inl FileNotFoundError)
               | Some (Inl e) \<Rightarrow> ([AnnExists ann, AnnRead ann], Inl e)
               | Some (Inr target) \<Rightarrow>
                   (case get_image fs ds img_id of
                      (evs, Inl e) \<Rightarrow> ([AnnExists ann, AnnRead ann] @ evs, Inl e)
                    | (evs, Inr img) \<Rightarrow>
                        (case transforms ds of
                           None \<Rightarrow> ([AnnExists ann, AnnRead ann] @ evs, Inr (img, target))
                         | Some f \<Rightarrow>
                             ([AnnExists ann, AnnRead ann] @ evs @ [TransformCall],
                              f (img, target))))))"

text \<open>
  One step of the generator \<^verbatim>\<open>iter_annotations\<close>, at its counter \<open>i\<close>: \<^verbatim>\<open>yield self[i][1]\<close>
  while \<^verbatim>\<open>i < len(self)\<close>, the end of the iteration (\<open>None\<close>) after that.
\<close>

definition iter_annotations_step ::
  "'img filesystem \<Rightarrow> 'img InReDDDataset \<Rightarrow> nat \<Rightarrow> (event list \<times> (error + json)) option" where
  "iter_annotations_step fs ds i =
     (if i < len ds then
        (case getitem fs ds (int i) of
           (evs, Inl e) \<Rightarrow> Some (evs, Inl e)
         | (evs, Inr pair) \<Rightarrow> Some (evs, Inr (snd pair)))
      else None)"

section \<open>describe\<close>

text \<open>
  The loop \<^verbatim>\<open>for ann in ds.iter_annotations(): acc.update(ann)\<close> over the indices the
  generator still has to visit. An exception of a step or of \<^verbatim>\<open>update\<close> ends the pass.
\<close>

fun describe_loop ::
  "'img filesystem \<Rightarrow> 'img InReDDDataset \<Rightarrow> DatasetStats \<Rightarrow> nat list
     \<Rightarrow> error + DatasetStats" where
  "describe_loop fs ds acc [] = Inr acc"
| "describe_loop fs ds acc (i # rest) =
     (case iter_annotations_step fs ds i of
        None \<Rightarrow> Inr acc
      | Some (evs, Inl e) \<Rightarrow> Inl e
      | Some (evs, Inr ann) \<Rightarrow>
          (case update acc ann of
             (Some e, acc') \<Rightarrow> Inl e
           | (None, acc') \<Rightarrow> describe_loop fs ds acc' rest))"

text \<open>
  \<^verbatim>\<open>describe\<close>: the dict of \<^verbatim>\<open>summary\<close> with the three \<^verbatim>\<open>Counter\<close> objects of the
  accumulator stored under three more keys. The result is that dict together with the
  accumulator its references point into.
\<close>

definition describe ::
  "'img filesystem \<Rightarrow> error + (string \<times> pyval) list \<times> DatasetStats" where
  "describe fs =
     (case InReDDDataset_init fs False None True of
        Inl e \<Rightarrow> Inl e
      | Inr ds \<Rightarrow>
          (case describe_loop fs ds DatasetStats_init [0 ..< len ds] of
             Inl e \<Rightarrow> Inl e
           | Inr acc \<Rightarrow>
               (case summary acc of
                  (Inl e, acc') \<Rightarrow> Inl e
                | (Inr out, acc') \<Rightarrow>
                    Inr (out @ [(''image_status'', VCounter RefImageStatus),
                                (''conditions'', VCounter RefConditions),
                                (''tooth_ids'', VCounter RefToothIds)], acc'))))"

section \<open>Notions used in the proofs\<close>

text \<open>
  The effect of one \<^verbatim>\<open>update\<close> call does not depend on the state it meets: the call adds
  to the state what it would have left in a fresh accumulator. \<open>counter_add\<close> adds two
  counters key by key and \<open>merge\<close> adds two accumulator states; \<open>delta\<close> is what a record
  leaves in a fresh accumulator and \<open>raises\<close> the exception it ends with there.
\<close>

definition counter_add :: "counter \<Rightarrow> counter \<Rightarrow> counter" where
  "counter_add c d = (\<lambda>k. if c k = None \<and> d k = None then None else Some (counter_get c k + counter_get d k))"

definition merge :: "DatasetStats \<Rightarrow> DatasetStats \<Rightarrow> DatasetStats" where
  "merge s d =
     \<lparr>image_status = counter_add (image_status s) (image_status d),
      conditions = counter_add (conditions s) (conditions d),
      tooth_ids = counter_add (tooth_ids s) (tooth_ids d),
      n_boxes_total = n_boxes_total s + n_boxes_total d,
      boxes_per_image = boxes_per_image s @ boxes_per_image d\<rparr>"

definition delta :: "json \<Rightarrow> DatasetStats" where
  "delta ann = snd (update DatasetStats_init ann)"

definition raises :: "json \<Rightarrow> error option" where
  "raises ann = fst (update DatasetStats_init ann)"

text \<open>
  What \<^verbatim>\<open>obj.get("tooth_id")\<close> gives on a dict, with Python's \<^verbatim>\<open>None\<close> as \<open>None\<close>: the
  value of the field, and \<^verbatim>\<open>None\<close> both when the field is absent and when it is null.
  \<open>counts_tooth_key k obj\<close> holds when it is a value whose text is the key \<open>k\<close>.
\<close>

definition tooth_id_of :: "json \<Rightarrow> json option" where
  "tooth_id_of obj =
     (case obj_get obj ''tooth_id'' of
        Inr (Some v) \<Rightarrow> if v = JNull then None else Some v
      | _ \<Rightarrow> None)"

definition counts_tooth_key :: "pykey \<Rightarrow> json \<Rightarrow> bool" where
  "counts_tooth_key k obj =
     (case tooth_id_of obj of None \<Rightarrow> False | Some v \<Rightarrow> k = KStr (py_str v))"





text \<open>The events of an access that search for, open or decode an image.\<close>

fun image_event :: "event \<Rightarrow> bool" where
  "image_event PILImport = True"
| "image_event (ImageSearch pat) = True"
| "image_event (ImageExists p) = True"
| "image_event (ImageOpen p) = True"
| "image_event ev = False"

text \<open>\<^verbatim>\<open>Counter.clear()\<close>, an in-place change a caller can make to a counter it holds.\<close>

definition counter_clear :: "counter \<Rightarrow> counter" where
  "counter_clear c = Map.empty"

section \<open>Example inputs\<close>





definition fs_images :: "unit filesystem" where
  "fs_images =
     \<lparr>img_entries = [[''b.png''], [''a.jpg''], [''sub''], [''sub'', ''a.jpeg''], [''c.tar.png''],
                     [''readme.md'']],
      ann_files = (\<lambda>name. if name = ''a.json'' then Some (Inr (JArr [JObj [(''tooth_id'', JStr ''11'')]]))
                           else None),
      pil = Some (\<lambda>p. Inr ()),
      rglob_first = (\<lambda>pat. if pat = ''b.png'' then Some [''b.png'']
                          else if pat = ''a.jpg'' then Some [''a.jpg'']
                          else if pat = ''a.jpeg'' then Some [''sub'', ''a.jpeg'']
                          else if pat = ''c.tar.png'' then Some [''c.tar.png'']
                          else None),
      path_exists = (\<lambda>p. p \<in> set [[''b.png''], [''a.jpg''], [''sub''], [''sub'', ''a.jpeg''],
                                    [''c.tar.png''], [''readme.md'']])\<rparr>"

definition ds_example :: "bool \<Rightarrow> unit InReDDDataset" where
  "ds_example li = \<lparr>ids = [''a'', ''b'', ''c.tar''], load_images = li, transforms = None\<rparr>"

definition fs_single :: "unit filesystem" where
  "fs_single =
     \<lparr>img_entries = [[''a.png'']],
      ann_files = (\<lambda>name. if name = ''a.json'' then Some (Inr (JArr [JObj [(''tooth_id'', JStr ''11'')]]))
                           else None),
      pil = None,
      rglob_first = (\<lambda>pat. None),
      path_exists = (\<lambda>p. False)\<rparr>"

definition acc_single :: DatasetStats where
  "acc_single =
     \<lparr>image_status = Map.empty, conditions = Map.empty, tooth_ids = [KStr ''11'' \<mapsto> 1],
      n_boxes_total = 1, boxes_per_image = [1]\<rparr>"

section \<open>One update call adds to the state\<close>

lemma counter_incr_add: "counter_incr (counter_add c d) k = counter_add c (counter_incr d k)"
  by (rule ext) (simp add: counter_incr_def counter_add_def counter_get_def split: option.splits)

lemma counter_update_add: "counter_update (counter_add c d) ks = counter_add c (counter_update d ks)"
  by (induction ks arbitrary: d) (simp_all add: counter_incr_add)

lemma counter_add_empty: "counter_add c Map.empty = c"
  by (rule ext) (simp add: counter_add_def counter_get_def split: option.splits)

lemma merge_init: "merge s DatasetStats_init = s"
  by (simp add: merge_def DatasetStats_init_def counter_add_empty)

lemma merge_sel:
  "image_status (merge s d) = counter_add (image_status s) (image_status d)"
  "conditions (merge s d) = counter_add (conditions s) (conditions d)"
  "tooth_ids (merge s d) = counter_add (tooth_ids s) (tooth_ids d)"
  "n_boxes_total (merge s d) = n_boxes_total s + n_boxes_total d"
  "boxes_per_image (merge s d) = boxes_per_image s @ boxes_per_image d"
  by (simp_all add: merge_def)

lemma merge_upd:
  "merge s (d\<lparr>tooth_ids := c\<rparr>) = (merge s d)\<lparr>tooth_ids := counter_add (tooth_ids s) c\<rparr>"
  "merge s (d\<lparr>conditions := c\<rparr>) = (merge s d)\<lparr>conditions := counter_add (conditions s) c\<rparr>"
  "merge s (d\<lparr>image_status := c\<rparr>) = (merge s d)\<lparr>image_status := counter_add (image_status s) c\<rparr>"
  "merge s (d\<lparr>n_boxes_total := n\<rparr>) = (merge s d)\<lparr>n_boxes_total := n_boxes_total s + n\<rparr>"
  "merge s (d\<lparr>boxes_per_image := xs\<rparr>) = (merge s d)\<lparr>boxes_per_image := boxes_per_image s @ xs\<rparr>"
  by (simp_all add: merge_def)

lemma update_obj_merge:
  "update_obj (merge s d) obj =
     (fst (update_obj d obj), merge s (snd (update_obj d obj)))"
  by (cases obj)
     (simp_all add: update_obj_def Let_def merge_upd merge_sel counter_update_add [symmetric]
        counter_incr_add [symmetric] split: option.splits sum.splits json.splits)

lemma update_objs_merge:
  "update_objs (merge s d) objs =
     (fst (update_objs d objs), merge s (snd (update_objs d objs)))"
proof (induction objs arbitrary: d)
  case Nil
  show ?case by simp
next
  case (Cons obj objs)
  show ?case
  proof (cases "update_obj d obj")
    case (Pair e d')
    then show ?thesis
      using Cons.IH [of d'] by (cases e) (simp_all add: update_obj_merge)
  qed
qed

lemma update_merge:
  "update (merge s d) ann = (fst (update d ann), merge s (snd (update d ann)))"
proof -
  let ?n = "int (length (objs_of ann))"
  have "(merge s d)\<lparr>boxes_per_image := boxes_per_image (merge s d) @ [?n],
                     n_boxes_total := n_boxes_total (merge s d) + ?n\<rparr> =
        merge s (d\<lparr>boxes_per_image := boxes_per_image d @ [?n],
                   n_boxes_total := n_boxes_total d + ?n\<rparr>)"
    by (simp add: merge_def)
  then show ?thesis
    by (simp add: update_def Let_def update_objs_merge)
qed

lemma update_delta: "update s ann = (raises ann, merge s (delta ann))"
  using update_merge [of s DatasetStats_init ann] by (simp add: merge_init delta_def raises_def)

lemma update_obj_frame:
  "boxes_per_image (snd (update_obj s obj)) = boxes_per_image s"
  "n_boxes_total (snd (update_obj s obj)) = n_boxes_total s"
  by (simp_all add: update_obj_def Let_def split: option.splits sum.splits json.splits)

lemma update_objs_frame:
  "boxes_per_image (snd (update_objs s objs)) = boxes_per_image s \<and>
   n_boxes_total (snd (update_objs s objs)) = n_boxes_total s"
proof (induction objs arbitrary: s)
  case Nil
  show ?case by simp
next
  case (Cons obj objs)
  show ?case
  proof (cases "update_obj s obj")
    case (Pair e s')
    then show ?thesis
      using Cons.IH [of s'] update_obj_frame [of s obj] by (cases e) simp_all
  qed
qed

lemma delta_boxes:
  "boxes_per_image (delta ann) = [int (length (objs_of ann))]"
  "n_boxes_total (delta ann) = int (length (objs_of ann))"
  by (simp_all add: delta_def update_def Let_def update_objs_frame DatasetStats_init_def)

lemma update_calls_foldl: "update_calls s rs = foldl merge s (map delta rs)"
  by (induction rs arbitrary: s) (simp_all add: update_delta)

lemma update_calls_history:
  "boxes_per_image (update_calls s rs) = boxes_per_image s @ map (\<lambda>r. int (length (objs_of r))) rs"
  by (induction rs arbitrary: s) (simp_all add: update_delta merge_sel delta_boxes)

lemma update_calls_total:
  "n_boxes_total (update_calls s rs) = n_boxes_total s + sum_list (map (\<lambda>r. int (length (objs_of r))) rs)"
  by (induction rs arbitrary: s) (simp_all add: update_delta merge_sel delta_boxes)

lemma counter_get_add: "counter_get (counter_add c d) k = counter_get c k + counter_get d k"
  by (simp add: counter_add_def counter_get_def)

lemma dom_counter_add: "dom (counter_add c d) = dom c \<union> dom d"
  by (auto simp: counter_add_def dom_def)

lemma counter_eqI:
  assumes "dom c = dom d" and "\<And>k. counter_get c k = counter_get d k"
  shows "c = d"
proof (rule ext)
  fix k
  show "c k = d k"
  proof (cases "c k")
    case None
    then have "k \<notin> dom c" by (simp add: domIff)
    then have "k \<notin> dom d" using assms(1) by simp
    with None show ?thesis by (simp add: domIff)
  next
    case (Some n)
    then have "k \<in> dom c" by (simp add: domIff)
    then have "k \<in> dom d" using assms(1) by simp
    then obtain m where "d k = Some m" by (auto simp: domIff)
    with Some assms(2) [of k] show ?thesis by (simp add: counter_get_def)
  qed
qed

lemma foldl_merge_counter:
  assumes sel: "\<And>s d. sel (merge s d) = counter_add (sel s) (sel d)"
  shows "counter_get (sel (foldl merge s ds)) k = counter_get (sel s) k + sum_mset (image_mset (\<lambda>d. counter_get (sel d) k) (mset ds))"
    and "dom (sel (foldl merge s ds)) = dom (sel s) \<union> (\<Union>d \<in> set_mset (mset ds). dom (sel d))"
  by (induction ds arbitrary: s) (auto simp: sel counter_get_add dom_counter_add)

lemma foldl_merge_counter_mset:
  assumes sel: "\<And>s d. sel (merge s d) = counter_add (sel s) (sel d)"
    and "mset ds1 = mset ds2"
  shows "sel (foldl merge s ds1) = sel (foldl merge s ds2)"
  by (rule counter_eqI) (simp_all only: foldl_merge_counter [of sel, OF sel] assms(2))

section \<open>The scenario of three records\<close>






section \<open>The summary depends on the history as a multiset\<close>

lemma py_min_Min: "py_min xs = (if xs = [] then Inl ValueError else Inr (Min (set xs)))"
proof (cases xs)
  case Nil
  then show ?thesis by simp
next
  case (Cons x rest)
  then show ?thesis using Min.set_eq_fold [of x rest] by simp
qed

lemma py_max_Max: "py_max xs = (if xs = [] then Inl ValueError else Inr (Max (set xs)))"
proof (cases xs)
  case Nil
  then show ?thesis by simp
next
  case (Cons x rest)
  then show ?thesis using Max.set_eq_fold [of x rest] by simp
qed

lemma sort_Nil_iff: "sort xs = [] \<longleftrightarrow> xs = []"
  using length_sort [of "\<lambda>x. x" xs] by (metis length_0_conv)

lemma summary_state: "snd (summary s) = s"
  by (simp add: summary_def split: sum.splits)

lemma summary_nonempty:
  assumes "boxes_per_image s \<noteq> []"
  shows "summary s =
     (Inr [(''images'', VNum (PyInt (int (length (boxes_per_image s))))),
           (''boxes'', VNum (PyInt (n_boxes_total s))),
           (''boxes_per_image'',
              VDict [(''mean'', VNum (py_round2 (projr (stats_mean (boxes_per_image s))))),
                     (''median'', VNum (projr (stats_median (boxes_per_image s)))),
                     (''min'', VNum (PyInt (Min (set (boxes_per_image s))))),
                     (''max'', VNum (PyInt (Max (set (boxes_per_image s)))))])], s)"
  using assms
  by (simp add: summary_def py_min_Min py_max_Max stats_mean_def stats_median_def Let_def
      sort_Nil_iff)

lemma summary_empty:
  "boxes_per_image s = [] \<Longrightarrow> summary s = (Inl StatisticsError, s)"
  by (simp add: summary_def stats_mean_def)

lemma sort_mset_cong:
  fixes xs ys :: "int list"
  assumes "mset xs = mset ys"
  shows "sort xs = sort ys"
  by (rule properties_for_sort) (simp_all add: assms)

lemma stats_mean_mset: "mset xs = mset ys \<Longrightarrow> stats_mean xs = stats_mean ys"
proof -
  assume eq: "mset xs = mset ys"
  have "sum_list xs = sum_list ys"
    using eq by (metis sum_mset_sum_list)
  moreover have "length xs = length ys"
    using eq by (metis size_mset)
  moreover have "(xs = []) = (ys = [])"
    using eq by (metis mset_zero_iff)
  ultimately show ?thesis by (simp add: stats_mean_def)
qed

lemma stats_median_mset: "mset xs = mset ys \<Longrightarrow> stats_median xs = stats_median ys"
  by (simp add: stats_median_def sort_mset_cong [of xs ys])

lemma summary_mset:
  assumes "mset (boxes_per_image s) = mset (boxes_per_image t)"
    and "n_boxes_total s = n_boxes_total t"
  shows "fst (summary s) = fst (summary t)"
proof -
  have len: "length (boxes_per_image s) = length (boxes_per_image t)"
    using assms(1) by (metis size_mset)
  have set: "set (boxes_per_image s) = set (boxes_per_image t)"
    using assms(1) by (metis set_mset_mset)
  have emp: "(boxes_per_image s = []) = (boxes_per_image t = [])"
    using len by auto
  show ?thesis
  proof (cases "boxes_per_image s = []")
    case True
    then show ?thesis using emp by (simp add: summary_empty)
  next
    case False
    then show ?thesis
      using emp
      by (simp add: summary_nonempty len set assms(2) stats_mean_mset [OF assms(1)]
          stats_median_mset [OF assms(1)])
  qed
qed

section \<open>Properties of the accumulator\<close>

text \<open>
  C6. \<^verbatim>\<open>summary\<close> on an accumulator that has seen no \<^verbatim>\<open>update\<close> call raises
  (\<^verbatim>\<open>StatisticsError\<close>, from \<^verbatim>\<open>stats.mean\<close>) and leaves the accumulator as it was. In any
  state it raises exactly when the history of box counts is empty, and returns a dict
  exactly when it is not: there is no zero-filled or partial result.
\<close>

theorem summary_without_update_raises:
  "summary DatasetStats_init = (Inl StatisticsError, DatasetStats_init) \<and>
   (fst (summary s) = Inl StatisticsError) = (boxes_per_image s = []) \<and>
   (\<exists>out. fst (summary s) = Inr out) = (boxes_per_image s \<noteq> [])"
proof -
  have "summary DatasetStats_init = (Inl StatisticsError, DatasetStats_init)"
    by (simp add: summary_empty DatasetStats_init_def)
  moreover have "(fst (summary s) = Inl StatisticsError) = (boxes_per_image s = [])"
    by (cases "boxes_per_image s = []") (simp_all add: summary_empty summary_nonempty)
  moreover have "(\<exists>out. fst (summary s) = Inr out) = (boxes_per_image s \<noteq> [])"
    by (cases "boxes_per_image s = []") (simp_all add: summary_empty summary_nonempty)
  ultimately show ?thesis by simp
qed

lemma init_sel:
  "boxes_per_image DatasetStats_init = []"
  "n_boxes_total DatasetStats_init = 0"
  by (simp_all add: DatasetStats_init_def)

lemma update_calls_history_nonempty: "rs \<noteq> [] \<Longrightarrow> boxes_per_image (update_calls s rs) \<noteq> []"
  by (simp add: update_calls_history)

text \<open>
  C7. After at least one \<^verbatim>\<open>update\<close> call, \<^verbatim>\<open>summary\<close> returns a dict and leaves the state
  of the accumulator unchanged, and a second call right after it returns the same dict.
\<close>

theorem summary_idempotent:
  assumes "rs \<noteq> []"
  shows "\<exists>out. summary (update_calls s0 rs) = (Inr out, update_calls s0 rs) \<and>
           summary (snd (summary (update_calls s0 rs))) = (Inr out, update_calls s0 rs)"
proof -
  have "boxes_per_image (update_calls s0 rs) \<noteq> []"
    using assms by (rule update_calls_history_nonempty)
  then obtain out where "summary (update_calls s0 rs) = (Inr out, update_calls s0 rs)"
    using summary_nonempty [of "update_calls s0 rs"] by blast
  then show ?thesis by simp
qed

theorem summary_idempotent_witness:
  "\<exists>out. summary (update_calls DatasetStats_init [JObj [(''tooth_id'', JInt 11)]]) =
            (Inr out, update_calls DatasetStats_init [JObj [(''tooth_id'', JInt 11)]]) \<and>
         summary (snd (summary (update_calls DatasetStats_init [JObj [(''tooth_id'', JInt 11)]]))) =
            (Inr out, update_calls DatasetStats_init [JObj [(''tooth_id'', JInt 11)]])"
  using summary_idempotent [of "[JObj [(''tooth_id'', JInt 11)]]" DatasetStats_init] by simp

text \<open>
  C10. After any sequence of \<^verbatim>\<open>update\<close> calls on a fresh accumulator (every call counts,
  also one that raised), the running total of boxes is the sum of the history and the
  history has one entry per call; when at least one call was made, \<^verbatim>\<open>summary\<close> returns a
  dict whose \<^verbatim>\<open>boxes\<close> is the sum of the history and whose \<^verbatim>\<open>images\<close> is the number of
  calls.
\<close>

theorem update_calls_invariant:
  "n_boxes_total (update_calls DatasetStats_init rs) =
     sum_list (boxes_per_image (update_calls DatasetStats_init rs)) \<and>
   length (boxes_per_image (update_calls DatasetStats_init rs)) = length rs \<and>
   (rs \<noteq> [] \<longrightarrow>
     (\<exists>out. fst (summary (update_calls DatasetStats_init rs)) = Inr out \<and>
        map_of out ''boxes'' =
          Some (VNum (PyInt (sum_list (boxes_per_image (update_calls DatasetStats_init rs))))) \<and>
        map_of out ''images'' = Some (VNum (PyInt (int (length rs))))))"
proof -
  let ?s = "update_calls DatasetStats_init rs"
  have hist: "boxes_per_image ?s = map (\<lambda>r. int (length (objs_of r))) rs"
    by (simp add: update_calls_history init_sel)
  have total: "n_boxes_total ?s = sum_list (boxes_per_image ?s)"
    by (simp add: update_calls_total hist init_sel)
  have len: "length (boxes_per_image ?s) = length rs"
    by (simp add: hist)
  have "\<exists>out. fst (summary ?s) = Inr out \<and>
        map_of out ''boxes'' = Some (VNum (PyInt (sum_list (boxes_per_image ?s)))) \<and>
        map_of out ''images'' = Some (VNum (PyInt (int (length rs))))" if "rs \<noteq> []"
  proof -
    have "boxes_per_image ?s \<noteq> []"
      using that by (rule update_calls_history_nonempty)
    then show ?thesis
      using summary_nonempty [of ?s] total len by simp
  qed
  with total len show ?thesis by blast
qed

theorem update_calls_invariant_witness:
  "n_boxes_total (update_calls DatasetStats_init [JArr [JObj [], JObj []], JObj []]) = 3 \<and>
   boxes_per_image (update_calls DatasetStats_init [JArr [JObj [], JObj []], JObj []]) = [2, 1] \<and>
   (\<exists>out. fst (summary (update_calls DatasetStats_init [JArr [JObj [], JObj []], JObj []])) = Inr out \<and>
      map_of out ''boxes'' = Some (VNum (PyInt 3)) \<and>
      map_of out ''images'' = Some (VNum (PyInt 2)))"
proof -
  have hist: "boxes_per_image (update_calls DatasetStats_init [JArr [JObj [], JObj []], JObj []]) = [2, 1]"
    by (simp only: update_calls_history init_sel) simp
  show ?thesis
    using update_calls_invariant [of "[JArr [JObj [], JObj []], JObj []]"]
    by (simp add: hist del: update_calls.simps)
qed

lemma update_all_raises: "(fst (update_all s rs) = None) = (\<forall>r \<in> set rs. raises r = None)"
proof (induction rs arbitrary: s)
  case Nil
  show ?case by simp
next
  case (Cons r rs)
  show ?case
    using Cons.IH [of "merge s (delta r)"] by (cases "raises r") (simp_all add: update_delta)
qed

lemma update_all_calls: "fst (update_all s rs) = None \<Longrightarrow> snd (update_all s rs) = update_calls s rs"
proof (induction rs arbitrary: s)
  case Nil
  show ?case by simp
next
  case (Cons r rs)
  then show ?case
    by (cases "raises r") (simp_all add: update_delta)
qed

text \<open>
  C8. Two orderings of the same multiset of records, applied from the same state, give
  the same three counters, the same total of boxes and the same result of \<^verbatim>\<open>summary\<close>
  (images, boxes, mean, median, minimum, maximum); the histories agree as multisets;
  and one ordering runs without an exception exactly when the other does.
\<close>

theorem update_order_independent:
  assumes "mset rs1 = mset rs2"
  shows "image_status (update_calls s rs1) = image_status (update_calls s rs2) \<and>
         conditions (update_calls s rs1) = conditions (update_calls s rs2) \<and>
         tooth_ids (update_calls s rs1) = tooth_ids (update_calls s rs2) \<and>
         n_boxes_total (update_calls s rs1) = n_boxes_total (update_calls s rs2) \<and>
         mset (boxes_per_image (update_calls s rs1)) = mset (boxes_per_image (update_calls s rs2)) \<and>
         fst (summary (update_calls s rs1)) = fst (summary (update_calls s rs2)) \<and>
         (fst (update_all s rs1) = None) = (fst (update_all s rs2) = None)"
proof -
  have ds: "mset (map delta rs1) = mset (map delta rs2)"
    by (simp add: assms)
  have st: "image_status (update_calls s rs1) = image_status (update_calls s rs2)"
    unfolding update_calls_foldl by (rule foldl_merge_counter_mset [of image_status, OF merge_sel(1) ds])
  have co: "conditions (update_calls s rs1) = conditions (update_calls s rs2)"
    unfolding update_calls_foldl by (rule foldl_merge_counter_mset [of conditions, OF merge_sel(2) ds])
  have to: "tooth_ids (update_calls s rs1) = tooth_ids (update_calls s rs2)"
    unfolding update_calls_foldl by (rule foldl_merge_counter_mset [of tooth_ids, OF merge_sel(3) ds])
  have ns: "mset (map (\<lambda>r. int (length (objs_of r))) rs1) = mset (map (\<lambda>r. int (length (objs_of r))) rs2)"
    by (simp add: assms)
  have hist: "mset (boxes_per_image (update_calls s rs1)) = mset (boxes_per_image (update_calls s rs2))"
    using ns by (simp add: update_calls_history)
  have "sum_list (map (\<lambda>r. int (length (objs_of r))) rs1) = sum_list (map (\<lambda>r. int (length (objs_of r))) rs2)"
    using ns by (metis sum_mset_sum_list)
  then have total: "n_boxes_total (update_calls s rs1) = n_boxes_total (update_calls s rs2)"
    by (simp add: update_calls_total)
  have summ: "fst (summary (update_calls s rs1)) = fst (summary (update_calls s rs2))"
    using hist total by (rule summary_mset)
  have "set rs1 = set rs2"
    using assms by (metis set_mset_mset)
  then have ok: "(fst (update_all s rs1) = None) = (fst (update_all s rs2) = None)"
    by (simp add: update_all_raises)
  from st co to total hist summ ok show ?thesis by simp
qed


theorem update_order_independent_witness:
  "image_status (update_calls DatasetStats_init
       [JArr [JObj [(''tooth_id'', JStr ''11'')], JObj []], JObj [(''image_status'', JStr ''ok'')]]) =
   image_status (update_calls DatasetStats_init
       [JObj [(''image_status'', JStr ''ok'')], JArr [JObj [(''tooth_id'', JStr ''11'')], JObj []]]) \<and>
   conditions (update_calls DatasetStats_init
       [JArr [JObj [(''tooth_id'', JStr ''11'')], JObj []], JObj [(''image_status'', JStr ''ok'')]]) =
   conditions (update_calls DatasetStats_init
       [JObj [(''image_status'', JStr ''ok'')], JArr [JObj [(''tooth_id'', JStr ''11'')], JObj []]]) \<and>
   tooth_ids (update_calls DatasetStats_init
       [JArr [JObj [(''tooth_id'', JStr ''11'')], JObj []], JObj [(''image_status'', JStr ''ok'')]]) =
   tooth_ids (update_calls DatasetStats_init
       [JObj [(''image_status'', JStr ''ok'')], JArr [JObj [(''tooth_id'', JStr ''11'')], JObj []]]) \<and>
   n_boxes_total (update_calls DatasetStats_init
       [JArr [JObj [(''tooth_id'', JStr ''11'')], JObj []], JObj [(''image_status'', JStr ''ok'')]]) =
   n_boxes_total (update_calls DatasetStats_init
       [JObj [(''image_status'', JStr ''ok'')], JArr [JObj [(''tooth_id'', JStr ''11'')], JObj []]]) \<and>
   mset (boxes_per_image (update_calls DatasetStats_init
       [JArr [JObj [(''tooth_id'', JStr ''11'')], JObj []], JObj [(''image_status'', JStr ''ok'')]])) =
   mset (boxes_per_image (update_calls DatasetStats_init
       [JObj [(''image_status'', JStr ''ok'')], JArr [JObj [(''tooth_id'', JStr ''11'')], JObj []]])) \<and>
   fst (summary (update_calls DatasetStats_init
       [JArr [JObj [(''tooth_id'', JStr ''11'')], JObj []], JObj [(''image_status'', JStr ''ok'')]])) =
   fst (summary (update_calls DatasetStats_init
       [JObj [(''image_status'', JStr ''ok'')], JArr [JObj [(''tooth_id'', JStr ''11'')], JObj []]])) \<and>
   (fst (update_all DatasetStats_init
       [JArr [JObj [(''tooth_id'', JStr ''11'')], JObj []], JObj [(''image_status'', JStr ''ok'')]]) = None) =
   (fst (update_all DatasetStats_init
       [JObj [(''image_status'', JStr ''ok'')], JArr [JObj [(''tooth_id'', JStr ''11'')], JObj []]]) = None)"
proof -
  have "mset [JArr [JObj [(''tooth_id'', JStr ''11'')], JObj []], JObj [(''image_status'', JStr ''ok'')]] =
        mset [JObj [(''image_status'', JStr ''ok'')], JArr [JObj [(''tooth_id'', JStr ''11'')], JObj []]]"
    by simp
  then show ?thesis by (rule update_order_independent)
qed

section \<open>Counting tooth IDs\<close>

lemma int_str_zero: "int_str 0 = ''0''"
  by code_simp

lemma counter_get_incr:
  "counter_get (counter_incr c k') k = counter_get c k + (if k = k' then 1 else 0)"
  by (simp add: counter_incr_def counter_get_def)

lemma update_obj_tooth_ids:
  "tooth_ids (snd (update_obj s obj)) =
     (case tooth_id_of obj of
        None \<Rightarrow> tooth_ids s
      | Some v \<Rightarrow> counter_incr (tooth_ids s) (KStr (py_str v)))"
proof (cases obj)
  case (JObj kvs)
  show ?thesis
  proof (cases "map_of kvs ''tooth_id''")
    case None
    with JObj show ?thesis
      by (simp add: update_obj_def tooth_id_of_def Let_def split: option.splits sum.splits)
  next
    case (Some v)
    with JObj show ?thesis
      by (cases v)
         (simp_all add: update_obj_def tooth_id_of_def Let_def split: option.splits sum.splits)
  qed
qed (simp_all add: update_obj_def tooth_id_of_def)

lemma update_obj_tooth_count:
  "counter_get (tooth_ids (snd (update_obj s obj))) k =
     counter_get (tooth_ids s) k + (if counts_tooth_key k obj then 1 else 0)"
  by (simp add: update_obj_tooth_ids counts_tooth_key_def counter_get_incr split: option.splits)

lemma update_objs_tooth_count:
  "fst (update_objs s objs) = None \<Longrightarrow>
   counter_get (tooth_ids (snd (update_objs s objs))) k =
     counter_get (tooth_ids s) k + int (length (filter (counts_tooth_key k) objs))"
proof (induction objs arbitrary: s)
  case Nil
  show ?case by simp
next
  case (Cons obj objs)
  show ?case
  proof (cases "update_obj s obj")
    case (Pair e s')
    with Cons.prems have e: "e = None" and rest: "fst (update_objs s' objs) = None"
      by (cases e; simp)+
    have "counter_get (tooth_ids s') k =
            counter_get (tooth_ids s) k + (if counts_tooth_key k obj then 1 else 0)"
      using update_obj_tooth_count [of s obj k] Pair by simp
    then show ?thesis
      using Cons.IH [OF rest] Pair e by simp
  qed
qed

text \<open>
  C9 (as amended). In an \<^verbatim>\<open>update\<close> call that raises nothing, the count of a key in the
  tooth-ID counter grows by the number of objects of the record that carry a
  \<^verbatim>\<open>tooth_id\<close> field whose value is not null and whose text is that key. A present value
  that is falsy but not null, such as 0 or the empty string, is counted; an object
  without the field, or with a null \<^verbatim>\<open>tooth_id\<close>, contributes nothing.
\<close>

theorem tooth_id_counted_unless_null:
  assumes "fst (update s ann) = None"
  shows "counter_get (tooth_ids (snd (update s ann))) k =
           counter_get (tooth_ids s) k +
           int (length (filter (counts_tooth_key k) (objs_of ann)))"
  using assms update_objs_tooth_count [of _ "objs_of ann" k]
  by (simp add: update_def Let_def)

theorem tooth_id_counted_unless_null_witness:
  "fst (update DatasetStats_init
          (JArr [JObj [(''tooth_id'', JInt 0)], JObj [(''tooth_id'', JStr [])],
                 JObj [(''tooth_id'', JNull)], JObj [(''image_status'', JStr ''ok'')]])) = None \<and>
   length (filter (counts_tooth_key (KStr ''0''))
          (objs_of (JArr [JObj [(''tooth_id'', JInt 0)], JObj [(''tooth_id'', JStr [])],
                 JObj [(''tooth_id'', JNull)], JObj [(''image_status'', JStr ''ok'')]]))) = 1 \<and>
   counter_get (tooth_ids (snd (update DatasetStats_init
          (JArr [JObj [(''tooth_id'', JInt 0)], JObj [(''tooth_id'', JStr [])],
                 JObj [(''tooth_id'', JNull)], JObj [(''image_status'', JStr ''ok'')]])))) (KStr ''0'') = 1 \<and>
   tooth_ids (snd (update DatasetStats_init
          (JArr [JObj [(''tooth_id'', JInt 0)], JObj [(''tooth_id'', JStr [])],
                 JObj [(''tooth_id'', JNull)], JObj [(''image_status'', JStr ''ok'')]]))) =
     [KStr ''0'' \<mapsto> 1, KStr [] \<mapsto> 1]"
proof -
  let ?ann = "JArr [JObj [(''tooth_id'', JInt 0)], JObj [(''tooth_id'', JStr [])],
                 JObj [(''tooth_id'', JNull)], JObj [(''image_status'', JStr ''ok'')]]"
  have run: "update DatasetStats_init ?ann =
     (None, \<lparr>image_status = [KStr ''ok'' \<mapsto> 1], conditions = Map.empty,
        tooth_ids = [KStr ''0'' \<mapsto> 1, KStr [] \<mapsto> 1],
        n_boxes_total = 4, boxes_per_image = [4]\<rparr>)"
    by (simp add: update_def update_obj_def DatasetStats_init_def counter_incr_def
        int_str_zero)
  have ok: "fst (update DatasetStats_init ?ann) = None"
    by (simp add: run)
  have cnt: "length (filter (counts_tooth_key (KStr ''0'')) (objs_of ?ann)) = 1"
    by (simp add: counts_tooth_key_def tooth_id_of_def int_str_zero)
  have "counter_get (tooth_ids (snd (update DatasetStats_init ?ann))) (KStr ''0'') =
          counter_get (tooth_ids DatasetStats_init) (KStr ''0'') + 1"
    using tooth_id_counted_unless_null [OF ok, of "KStr ''0''"] by (simp only: cnt)
  then have "counter_get (tooth_ids (snd (update DatasetStats_init ?ann))) (KStr ''0'') = 1"
    by (simp add: DatasetStats_init_def counter_get_def)
  with ok cnt show ?thesis by (simp add: run)
qed

text \<open>
  The claim as stated fails on an object whose \<^verbatim>\<open>tooth_id\<close> is null: the field is
  present and its value is falsy, and no counter is incremented.
\<close>

theorem null_tooth_id_not_counted:
  "obj_get (JObj [(''tooth_id'', JNull)]) ''tooth_id'' = Inr (Some JNull) \<and>
   update DatasetStats_init (JArr [JObj [(''tooth_id'', JNull)]]) =
     (None, \<lparr>image_status = Map.empty, conditions = Map.empty, tooth_ids = Map.empty,
        n_boxes_total = 1, boxes_per_image = [1]\<rparr>)"
  by (simp add: update_def update_obj_def DatasetStats_init_def)

section \<open>The constructor of the dataset\<close>










lemma init_example:
  "InReDDDataset_init fs_images li tr True =
     Inr \<lparr>ids = [''a'', ''b'', ''c.tar''], load_images = li, transforms = tr\<rparr>"
  by (simp add: InReDDDataset_init_def scan_stems_def globber_def fs_images_def IMG_EXTS_def
      matches_ext_def stem_def)


section \<open>The generator of annotations\<close>

lemma get_image_off: "\<not> load_images ds \<Longrightarrow> get_image fs ds img_id = ([], Inr None)"
  by (simp add: get_image_def)

lemma get_image_on: "load_images ds \<Longrightarrow> PILImport \<in> set (fst (get_image fs ds img_id))"
  by (simp add: get_image_def split: option.splits prod.splits sum.splits)

lemma getitem_off:
  assumes "\<not> load_images ds"
  shows "\<forall>ev \<in> set (fst (getitem fs ds idx)). \<not> image_event ev"
  using assms
  by (simp add: getitem_def Let_def get_image_off split: option.splits sum.splits)

lemma getitem_on:
  assumes "load_images ds" and "i < length (ids ds)"
    and "ann_files fs (ids ds ! i @ ''.json'') = Some (Inr t)"
  shows "PILImport \<in> set (fst (getitem fs ds (int i)))"
proof -
  obtain evs r where g: "get_image fs ds (ids ds ! i) = (evs, r)"
    by (cases "get_image fs ds (ids ds ! i)")
  have "PILImport \<in> set evs"
    using get_image_on [OF assms(1), of fs "ids ds ! i"] g by simp
  then show ?thesis
    using assms(2,3) g
    by (simp add: getitem_def Let_def split: option.splits sum.splits)
qed

lemma step_getitem:
  assumes "i < len ds"
  shows "iter_annotations_step fs ds i =
     Some (fst (getitem fs ds (int i)),
           (case snd (getitem fs ds (int i)) of Inl e \<Rightarrow> Inl e | Inr pair \<Rightarrow> Inr (snd pair)))"
  using assms by (simp add: iter_annotations_step_def split: prod.splits sum.splits)

text \<open>
  C3 (as amended). One step of \<^verbatim>\<open>iter_annotations\<close> at an index below the length is one
  \<^verbatim>\<open>__getitem__\<close> access, of which only the annotation is yielded. When the object was
  built with \<^verbatim>\<open>load_images\<close> off, the access has no image event: no import of PIL, no
  search, no open. When it was built with \<^verbatim>\<open>load_images\<close> on and the annotation was
  read, the access does run the image part of \<^verbatim>\<open>__getitem__\<close>.
\<close>

theorem iter_annotations_loads_as_flag_says:
  assumes "i < len ds"
  shows "iter_annotations_step fs ds i =
           Some (fst (getitem fs ds (int i)),
                 (case snd (getitem fs ds (int i)) of Inl e \<Rightarrow> Inl e | Inr pair \<Rightarrow> Inr (snd pair))) \<and>
         (\<not> load_images ds \<longrightarrow> (\<forall>ev \<in> set (fst (getitem fs ds (int i))). \<not> image_event ev)) \<and>
         (load_images ds \<and> (\<exists>t. ann_files fs (ids ds ! i @ ''.json'') = Some (Inr t)) \<longrightarrow>
            PILImport \<in> set (fst (getitem fs ds (int i))))"
  using assms step_getitem [OF assms, of fs] getitem_off [of ds fs "int i"] getitem_on [of ds i fs]
  by (auto simp: len_def)

lemma step_example_off:
  "iter_annotations_step fs_images (ds_example False) 0 =
     Some ([AnnExists ''a.json'', AnnRead ''a.json''], Inr (JArr [JObj [(''tooth_id'', JStr ''11'')]]))"
  by (simp add: iter_annotations_step_def len_def ds_example_def getitem_def get_image_def
      fs_images_def Let_def)

theorem iter_annotations_loads_as_flag_says_witness:
  "iter_annotations_step fs_images (ds_example False) 0 =
     Some ([AnnExists ''a.json'', AnnRead ''a.json''], Inr (JArr [JObj [(''tooth_id'', JStr ''11'')]])) \<and>
   PILImport \<in> set (fst (getitem fs_images (ds_example True) 0))"
proof -
  have l: "0 < len (ds_example False)" "0 < len (ds_example True)"
    by (simp_all add: len_def ds_example_def)
  have a: "\<exists>t. ann_files fs_images (ids (ds_example True) ! 0 @ ''.json'') = Some (Inr t)"
    by (simp add: ds_example_def fs_images_def)
  have on: "load_images (ds_example True)"
    by (simp add: ds_example_def)
  have "PILImport \<in> set (fst (getitem fs_images (ds_example True) 0))"
    using iter_annotations_loads_as_flag_says [OF l(2), of fs_images] a on by simp
  moreover have "iter_annotations_step fs_images (ds_example False) 0 =
     Some ([AnnExists ''a.json'', AnnRead ''a.json''], Inr (JArr [JObj [(''tooth_id'', JStr ''11'')]]))"
    using iter_annotations_loads_as_flag_says [OF l(1), of fs_images] by (simp add: step_example_off)
  ultimately show ?thesis by simp
qed

text \<open>
  The claim as stated fails when the object is built with \<^verbatim>\<open>load_images\<close> on: the first
  step of the generator searches for the image of \<^verbatim>\<open>a\<close> and opens \<^verbatim>\<open>a.jpg\<close>.
\<close>

theorem iter_annotations_opens_image:
  "InReDDDataset_init fs_images True None True = Inr (ds_example True) \<and>
   iter_annotations_step fs_images (ds_example True) 0 =
     Some ([AnnExists ''a.json'', AnnRead ''a.json'', PILImport, ImageSearch ''a.png'',
            ImageSearch ''a.jpg'', ImageExists [''a.jpg''], ImageOpen [''a.jpg'']],
           Inr (JArr [JObj [(''tooth_id'', JStr ''11'')]]))"
proof -
  have "iter_annotations_step fs_images (ds_example True) 0 =
     Some ([AnnExists ''a.json'', AnnRead ''a.json'', PILImport, ImageSearch ''a.png'',
            ImageSearch ''a.jpg'', ImageExists [''a.jpg''], ImageOpen [''a.jpg'']],
           Inr (JArr [JObj [(''tooth_id'', JStr ''11'')]]))"
    by (simp add: iter_annotations_step_def len_def ds_example_def getitem_def
        get_image_def fs_images_def IMG_EXTS_def Let_def)
  then show ?thesis
    by (simp add: init_example ds_example_def)
qed

section \<open>What the summary holds\<close>

lemma deref_mutate_ref: "deref (mutate_ref r f acc) r = f (deref acc r)"
  by (cases r) simp_all

lemma describe_result:
  assumes "describe fs = Inr (out, acc)"
  shows "\<exists>sm. fst (summary acc) = Inr sm \<and>
           out = sm @ [(''image_status'', VCounter RefImageStatus),
                       (''conditions'', VCounter RefConditions),
                       (''tooth_ids'', VCounter RefToothIds)]"
proof -
  from assms obtain ds acc0 where
    run: "describe_loop fs ds DatasetStats_init [0 ..< len ds] = Inr acc0"
    and res: "(case summary acc0 of
                 (Inl e, acc') \<Rightarrow> Inl e
               | (Inr sm, acc') \<Rightarrow>
                   Inr (sm @ [(''image_status'', VCounter RefImageStatus),
                              (''conditions'', VCounter RefConditions),
                              (''tooth_ids'', VCounter RefToothIds)], acc')) = Inr (out, acc)"
    by (auto simp: describe_def split: sum.splits)
  obtain r acc' where s: "summary acc0 = (r, acc')"
    by (cases "summary acc0")
  have "acc' = acc0"
    using summary_state [of acc0] s by simp
  with res s show ?thesis
    by (cases r) auto
qed

lemma summary_keys:
  assumes "boxes_per_image s \<noteq> []"
  shows "\<exists>mu med. stats_mean (boxes_per_image s) = Inr mu \<and>
           stats_median (boxes_per_image s) = Inr med \<and>
           fst (summary s) =
             Inr [(''images'', VNum (PyInt (int (length (boxes_per_image s))))),
                  (''boxes'', VNum (PyInt (n_boxes_total s))),
                  (''boxes_per_image'',
                     VDict [(''mean'', VNum (py_round2 mu)),
                            (''median'', VNum med),
                            (''min'', VNum (PyInt (Min (set (boxes_per_image s))))),
                            (''max'', VNum (PyInt (Max (set (boxes_per_image s)))))])]"
  using assms
  by (simp add: summary_def py_min_Min py_max_Max stats_mean_def stats_median_def Let_def
      sort_Nil_iff)

text \<open>
  C2 (as amended). After at least one \<^verbatim>\<open>update\<close> call, \<^verbatim>\<open>summary\<close> returns a dict with
  exactly the keys \<^verbatim>\<open>images\<close>, \<^verbatim>\<open>boxes\<close> and \<^verbatim>\<open>boxes_per_image\<close>, the last one holding
  the rounded mean, the median, the minimum and the maximum of the history; it holds no
  counter. \<^verbatim>\<open>describe\<close> adds the three counters to that dict, and what it stores are the
  \<^verbatim>\<open>Counter\<close> objects of the accumulator themselves: a change made through such a
  reference is a change of the accumulator's counter.
\<close>

theorem summary_without_counters:
  "(rs \<noteq> [] \<longrightarrow>
      (\<exists>mu med. stats_mean (boxes_per_image (update_calls s0 rs)) = Inr mu \<and>
         stats_median (boxes_per_image (update_calls s0 rs)) = Inr med \<and>
         fst (summary (update_calls s0 rs)) =
           Inr [(''images'', VNum (PyInt (int (length (boxes_per_image (update_calls s0 rs)))))),
                (''boxes'', VNum (PyInt (n_boxes_total (update_calls s0 rs)))),
                (''boxes_per_image'',
                   VDict [(''mean'', VNum (py_round2 mu)),
                          (''median'', VNum med),
                          (''min'', VNum (PyInt (Min (set (boxes_per_image (update_calls s0 rs)))))),
                          (''max'', VNum (PyInt (Max (set (boxes_per_image (update_calls s0 rs))))))])])) \<and>
   (describe fs = Inr (out, acc) \<longrightarrow>
      (\<exists>sm. fst (summary acc) = Inr sm \<and>
         out = sm @ [(''image_status'', VCounter RefImageStatus),
                     (''conditions'', VCounter RefConditions),
                     (''tooth_ids'', VCounter RefToothIds)]) \<and>
      (\<forall>r f. deref (mutate_ref r f acc) r = f (deref acc r)))"
  using summary_keys [OF update_calls_history_nonempty, of rs s0] describe_result [of fs out acc]
  by (simp add: deref_mutate_ref)

lemma describe_single:
  "describe fs_single =
     Inr ([(''images'', VNum (PyInt 1)),
           (''boxes'', VNum (PyInt 1)),
           (''boxes_per_image'',
              VDict [(''mean'', VNum (PyInt 1)), (''median'', VNum (PyInt 1)),
                     (''min'', VNum (PyInt 1)), (''max'', VNum (PyInt 1))]),
           (''image_status'', VCounter RefImageStatus),
           (''conditions'', VCounter RefConditions),
           (''tooth_ids'', VCounter RefToothIds)], acc_single)"
proof -
  have i: "InReDDDataset_init fs_single False None True =
      Inr \<lparr>ids = [''a''], load_images = False, transforms = None\<rparr>"
    by (simp add: InReDDDataset_init_def scan_stems_def globber_def fs_single_def IMG_EXTS_def
        matches_ext_def stem_def)
  have l: "describe_loop fs_single \<lparr>ids = [''a''], load_images = False, transforms = None\<rparr>
             DatasetStats_init [0 ..< len \<lparr>ids = [''a''], load_images = False, transforms = None\<rparr>] =
           Inr acc_single"
    by (simp add: iter_annotations_step_def len_def getitem_def get_image_def fs_single_def
        Let_def update_def update_obj_def DatasetStats_init_def counter_incr_def acc_single_def)
  have s: "summary acc_single =
     (Inr [(''images'', VNum (PyInt 1)),
           (''boxes'', VNum (PyInt 1)),
           (''boxes_per_image'',
              VDict [(''mean'', VNum (PyInt 1)), (''median'', VNum (PyInt 1)),
                     (''min'', VNum (PyInt 1)), (''max'', VNum (PyInt 1))])], acc_single)"
    by (simp add: summary_def stats_mean_def stats_median_def acc_single_def)
  show ?thesis
    by (simp add: describe_def i l s)
qed

theorem summary_without_counters_witness:
  "(\<exists>mu med. stats_mean (boxes_per_image (update_calls DatasetStats_init [JObj []])) = Inr mu \<and>
      stats_median (boxes_per_image (update_calls DatasetStats_init [JObj []])) = Inr med \<and>
      fst (summary (update_calls DatasetStats_init [JObj []])) =
        Inr [(''images'', VNum (PyInt (int (length (boxes_per_image (update_calls DatasetStats_init [JObj []])))))),
             (''boxes'', VNum (PyInt (n_boxes_total (update_calls DatasetStats_init [JObj []])))),
             (''boxes_per_image'',
                VDict [(''mean'', VNum (py_round2 mu)),
                       (''median'', VNum med),
                       (''min'', VNum (PyInt (Min (set (boxes_per_image (update_calls DatasetStats_init [JObj []])))))),
                       (''max'', VNum (PyInt (Max (set (boxes_per_image (update_calls DatasetStats_init [JObj []]))))))])]) \<and>
   (\<exists>sm. fst (summary acc_single) = Inr sm \<and>
      fst (projr (describe fs_single)) =
        sm @ [(''image_status'', VCounter RefImageStatus),
              (''conditions'', VCounter RefConditions),
              (''tooth_ids'', VCounter RefToothIds)]) \<and>
   deref (mutate_ref RefToothIds counter_clear acc_single) RefToothIds = counter_clear (deref acc_single RefToothIds)"
proof -
  have ne: "[JObj []] \<noteq> []" by simp
  note t = summary_without_counters [of "[JObj []]" DatasetStats_init fs_single
      "fst (projr (describe fs_single))" acc_single]
  have d: "describe fs_single = Inr (fst (projr (describe fs_single)), acc_single)"
    by (simp add: describe_single)
  from t ne d show ?thesis by blast
qed

text \<open>
  The claim as stated fails twice on a directory with one annotated image: the dict of
  \<^verbatim>\<open>summary\<close> has no counter, and the counter that \<^verbatim>\<open>describe\<close> returns under
  \<^verbatim>\<open>tooth_ids\<close> is the accumulator's own, so that clearing it through the returned dict
  empties the accumulator's counter.
\<close>

theorem snapshot_counters_are_aliases:
  "fst (summary acc_single) =
     Inr [(''images'', VNum (PyInt 1)),
          (''boxes'', VNum (PyInt 1)),
          (''boxes_per_image'',
             VDict [(''mean'', VNum (PyInt 1)), (''median'', VNum (PyInt 1)),
                    (''min'', VNum (PyInt 1)), (''max'', VNum (PyInt 1))])] \<and>
   describe fs_single =
     Inr ([(''images'', VNum (PyInt 1)),
           (''boxes'', VNum (PyInt 1)),
           (''boxes_per_image'',
              VDict [(''mean'', VNum (PyInt 1)), (''median'', VNum (PyInt 1)),
                     (''min'', VNum (PyInt 1)), (''max'', VNum (PyInt 1))]),
           (''image_status'', VCounter RefImageStatus),
           (''conditions'', VCounter RefConditions),
           (''tooth_ids'', VCounter RefToothIds)], acc_single) \<and>
   tooth_ids acc_single = [KStr ''11'' \<mapsto> 1] \<and>
   tooth_ids (mutate_ref RefToothIds counter_clear acc_single) = Map.empty"
proof -
  have "fst (summary acc_single) =
     Inr [(''images'', VNum (PyInt 1)),
          (''boxes'', VNum (PyInt 1)),
          (''boxes_per_image'',
             VDict [(''mean'', VNum (PyInt 1)), (''median'', VNum (PyInt 1)),
                    (''min'', VNum (PyInt 1)), (''max'', VNum (PyInt 1))])]"
    by (simp add: summary_def stats_mean_def stats_median_def acc_single_def)
  moreover have "tooth_ids acc_single = [KStr ''11'' \<mapsto> 1]"
    by (simp add: acc_single_def)
  moreover have "tooth_ids (mutate_ref RefToothIds counter_clear acc_single) = Map.empty"
    by (simp add: counter_clear_def)
  ultimately show ?thesis
    using describe_single by simp
qed

end
